theory Spec2Isabelle
  imports Main "HOL-Library.AList" "HOL-Library.Monad_Syntax"
begin

section \<open>Values, nodes and the namespace state\<close>

text \<open>
  JavaScript values as far as the namespace engine stores them in a node's property bag
  or reads them from a declarative record. Strings are byte strings (UTF-8), so the
  \<open>Blob\<close> size of a string is its \<open>length\<close>.
\<close>

datatype jval =
    JUndefined
  | JNull
  | JBool bool
  | JNum int
  | JStr string
  | JArr "jval list"
  | JObj "(string \<times> jval) list"

fun truthy :: "jval \<Rightarrow> bool" where
  "truthy JUndefined = False"
| "truthy JNull = False"
| "truthy (JBool b) = b"
| "truthy (JNum n) = (n \<noteq> 0)"
| "truthy (JStr s) = (s \<noteq> [])"
| "truthy (JArr xs) = True"
| "truthy (JObj fs) = True"

text \<open>Reading a property of an object: a missing property reads as \<open>undefined\<close>.\<close>

definition get_prop :: "(string \<times> jval) list \<Rightarrow> string \<Rightarrow> jval" where
  "get_prop ps k = (case map_of ps k of None \<Rightarrow> JUndefined | Some v \<Rightarrow> v)"

text \<open>
  A \<open>TreeNode\<close> (tree.js): \<open>key\<close>, \<open>parent\<close> (\<open>None\<close> is \<open>null\<close>), the ordered
  \<open>children\<close> array, the \<open>_childrenMap\<close> (a JavaScript \<open>Map\<close>: an insertion-ordered
  association list with distinct keys) and the remaining own properties
  (\<open>Object.assign(this, properties)\<close>) as a property bag. Nodes are objects with
  identity: a node is named by its address in the store.
\<close>

record node =
  key :: string
  parent :: "nat option"
  children :: "nat list"
  childrenMap :: "(string \<times> nat) list"
  props :: "(string \<times> jval) list"

text \<open>
  The state of a \<open>VirtualFileSystem\<close> (vfs.js) together with the object store it lives
  in: \<open>heap\<close> maps an address to the node stored there, \<open>nexta\<close> is the next unused
  address (\<open>new TreeNode\<close> allocates it), \<open>root\<close> is \<open>this.tree.root\<close>, \<open>cwd\<close> is
  \<open>this.cwd\<close>, \<open>pathCache\<close> is the \<open>Map\<close> \<open>this._pathCache\<close> (values may be \<open>null\<close>),
  \<open>uidCounter\<close> stands for the supply of fresh uids and \<open>clock\<close> for the formatted
  current date.
\<close>

record vfs =
  heap :: "nat \<Rightarrow> node"
  nexta :: nat
  root :: "nat option"
  cwd :: "nat option"
  pathCache :: "(string \<times> nat option) list"
  maxCacheSize :: nat
  uidCounter :: nat
  user :: string
  clock :: string

text \<open>
  The errors of the engine. The source throws \<open>Error\<close>/\<open>TypeError\<close> with a message; the
  constructors follow the taxonomy of the specification. \<open>NullDeref\<close> is the runtime
  \<open>TypeError\<close> of reading a property of \<open>null\<close>; \<open>OutsideModel\<close> marks inputs the
  embedding does not cover (said where it is returned).
\<close>

datatype error =
    PathNotFound string
  | NotADirectory
  | NotAFile
  | DuplicateName
  | NonEmptyDirectory
  | CannotModifyRoot
  | CyclicMove
  | ParentNotFound
  | InvalidArgument
  | RootExists
  | NullDeref
  | OutsideModel

section \<open>Strings\<close>

text \<open>\<open>s.split(c)\<close> for a one-character separator: never empty, \<open>"".split("/") = [""]\<close>.\<close>

fun js_split :: "char \<Rightarrow> string \<Rightarrow> string list" where
  "js_split c [] = [[]]"
| "js_split c (x # xs) =
     (if x = c then [] # js_split c xs
      else (case js_split c xs of [] \<Rightarrow> [[x]] | w # ws \<Rightarrow> (x # w) # ws))"

text \<open>\<open>segs.join(sep)\<close>.\<close>

fun js_join :: "string \<Rightarrow> string list \<Rightarrow> string" where
  "js_join sep [] = []"
| "js_join sep [x] = x"
| "js_join sep (x # y # ys) = x @ sep @ js_join sep (y # ys)"

text \<open>\<open>path.replace(/\/+$/g, "")\<close>: drop every trailing slash.\<close>

definition strip_trailing_slashes :: "string \<Rightarrow> string" where
  "strip_trailing_slashes p = rev (dropWhile (\<lambda>c. c = CHR ''/'') (rev p))"

text \<open>\<open>s.startsWith(p)\<close>.\<close>

fun startsWith :: "string \<Rightarrow> string \<Rightarrow> bool" where
  "startsWith s [] = True"
| "startsWith [] (p # ps) = False"
| "startsWith (c # cs) (p # ps) = (c = p \<and> startsWith cs ps)"

text \<open>\<open>segs.filter(Boolean)\<close> on an array of strings.\<close>

definition filter_Boolean :: "string list \<Rightarrow> string list" where
  "filter_Boolean segs = filter (\<lambda>g. g \<noteq> []) segs"

section \<open>TreeNode\<close>

definition new_TreeNode :: "string \<Rightarrow> (string \<times> jval) list \<Rightarrow> node" where
  "new_TreeNode k properties =
     \<lparr>key = k, parent = None, children = [], childrenMap = [], props = properties\<rparr>"

definition node_type :: "(nat \<Rightarrow> node) \<Rightarrow> nat \<Rightarrow> jval" where
  "node_type h n = get_prop (props (h n)) ''type''"

definition findChild :: "(nat \<Rightarrow> node) \<Rightarrow> nat \<Rightarrow> string \<Rightarrow> nat option" where
  "findChild h this k = map_of (childrenMap (h this)) k"

definition hasChild :: "(nat \<Rightarrow> node) \<Rightarrow> nat \<Rightarrow> string \<Rightarrow> bool" where
  "hasChild h this k = (map_of (childrenMap (h this)) k \<noteq> None)"

text \<open>
  \<open>insert(child)\<close>: the duplicate check, then \<open>children.push\<close>, \<open>_childrenMap.set\<close> and
  \<open>child.parent = this\<close>, in this order (the order matters when \<open>child\<close> is \<open>this\<close>).
\<close>

definition TreeNode_insert :: "nat \<Rightarrow> nat \<Rightarrow> (nat \<Rightarrow> node) \<Rightarrow> error + (nat \<Rightarrow> node)" where
  "TreeNode_insert this child h =
     (if hasChild h this (key (h child)) then Inl DuplicateName
      else
        let h1 = h(this := (h this)\<lparr>children := children (h this) @ [child],
                      childrenMap := AList.update (key (h child)) child (childrenMap (h this))\<rparr>)
        in Inr (h1(child := (h1 child)\<lparr>parent := Some this\<rparr>)))"

text \<open>
  \<open>delete(child)\<close>: \<open>indexOf\<close> and \<open>splice\<close> take out the first occurrence, the map entry
  under the child's key goes, and \<open>child.parent = null\<close>. Returns whether it was found.
\<close>

definition TreeNode_delete :: "nat \<Rightarrow> nat \<Rightarrow> (nat \<Rightarrow> node) \<Rightarrow> bool \<times> (nat \<Rightarrow> node)" where
  "TreeNode_delete this child h =
     (if child \<in> set (children (h this)) then
        let h1 = h(this := (h this)\<lparr>children := remove1 child (children (h this)),
                      childrenMap := AList.delete (key (h child)) (childrenMap (h this))\<rparr>)
        in (True, h1(child := (h1 child)\<lparr>parent := None\<rparr>))
      else (False, h))"

text \<open>
  \<open>isAncestorOf(node)\<close>: the loop over the parent chain of \<open>node\<close>, starting at
  \<open>node.parent\<close>. On a cyclic parent chain that does not contain \<open>this\<close> the loop never
  ends: the value is \<open>None\<close>.
\<close>

partial_function (option) ancestorLoop :: "(nat \<Rightarrow> node) \<Rightarrow> nat \<Rightarrow> nat option \<Rightarrow> bool option" where
  "ancestorLoop h this current =
     (case current of
        None \<Rightarrow> Some False
      | Some c \<Rightarrow> if c = this then Some True else ancestorLoop h this (parent (h c)))"

declare ancestorLoop.simps [code]

definition isAncestorOf :: "(nat \<Rightarrow> node) \<Rightarrow> nat \<Rightarrow> nat \<Rightarrow> bool option" where
  "isAncestorOf h this n = ancestorLoop h this (parent (h n))"

section \<open>Paths\<close>

text \<open>
  \<open>_absolute_path(node)\<close>: collect the keys up the parent chain until \<open>null\<close> or the root.
  \<open>None\<close> when the loop never ends.
\<close>

partial_function (option) absoluteLoop ::
  "(nat \<Rightarrow> node) \<Rightarrow> nat option \<Rightarrow> nat option \<Rightarrow> string list \<Rightarrow> string list option" where
  "absoluteLoop h r current pathSegments =
     (case current of
        None \<Rightarrow> Some pathSegments
      | Some c \<Rightarrow>
          if Some c = r then Some pathSegments
          else absoluteLoop h r (parent (h c)) (key (h c) # pathSegments))"

declare absoluteLoop.simps [code]

definition absolute_path :: "vfs \<Rightarrow> nat option \<Rightarrow> string option" where
  "absolute_path s n =
     (case n of
        None \<Rightarrow> Some ''/''
      | Some c \<Rightarrow>
          (case absoluteLoop (heap s) (root s) (Some c) [] of
             None \<Rightarrow> None
           | Some segs \<Rightarrow> Some (CHR ''/'' # js_join ''/'' segs)))"

text \<open>The loop of \<open>_normalizePath\<close> over the segments; the array grows and shrinks at its end.\<close>

fun normalizeLoop :: "string list \<Rightarrow> string list \<Rightarrow> string list" where
  "normalizeLoop [] resolvedSegments = resolvedSegments"
| "normalizeLoop (segment # segments) resolvedSegments =
     (if segment = ''..''
      then normalizeLoop segments (if resolvedSegments \<noteq> [] then butlast resolvedSegments else resolvedSegments)
      else normalizeLoop segments (resolvedSegments @ [segment]))"

definition normalizePath :: "vfs \<Rightarrow> string \<Rightarrow> string option" where
  "normalizePath s path =
     (if path = [] \<or> path = ''.'' then absolute_path s (cwd s)
      else if path = ''/'' then Some ''/''
      else
        (case (if startsWith path ''/'' then Some ''/'' else absolute_path s (cwd s)) of
           None \<Rightarrow> None
         | Some basePath \<Rightarrow>
             let segments = filter (\<lambda>g. g \<noteq> [] \<and> g \<noteq> ''.'') (js_split CHR ''/'' path);
                 resolvedSegments =
                   (if basePath = ''/'' then [] else filter_Boolean (js_split CHR ''/'' basePath))
             in Some (CHR ''/'' # js_join ''/'' (normalizeLoop segments resolvedSegments))))"

text \<open>
  The loop of \<open>_resolvePathUncached\<close>: \<open>done\<close> holds the segments already walked, for the
  partial path of the error. \<open>current\<close> is \<open>null\<close> only when the tree has no root.
\<close>

fun walk :: "(nat \<Rightarrow> node) \<Rightarrow> nat option \<Rightarrow> string list \<Rightarrow> string list \<Rightarrow> error + nat option" where
  "walk h current done [] = Inr current"
| "walk h current done (segment # segments) =
     (case current of
        None \<Rightarrow> Inl NullDeref
      | Some c \<Rightarrow>
          (case findChild h c segment of
             None \<Rightarrow> Inl (PathNotFound (CHR ''/'' # js_join ''/'' (done @ [segment])))
           | Some found \<Rightarrow> walk h (Some found) (done @ [segment]) segments))"

definition resolvePathUncached :: "vfs \<Rightarrow> string \<Rightarrow> error + nat option" where
  "resolvePathUncached s normalizedPath =
     (if normalizedPath = ''/'' then Inr (root s)
      else walk (heap s) (root s) [] (filter_Boolean (js_split CHR ''/'' normalizedPath)))"

text \<open>
  The miss branch of \<open>_resolve_path\<close>: walk, then evict the oldest entry when the cache is
  full, then store the result.
\<close>

definition resolve_miss :: "string \<Rightarrow> vfs \<Rightarrow> (error + nat option) \<times> vfs" where
  "resolve_miss normalizedPath s =
     (case resolvePathUncached s normalizedPath of
        Inl e \<Rightarrow> (Inl e, s)
      | Inr result \<Rightarrow>
          let c1 = (if maxCacheSize s \<le> length (pathCache s)
                    then (case pathCache s of [] \<Rightarrow> [] | kv # _ \<Rightarrow> AList.delete (fst kv) (pathCache s))
                    else pathCache s)
          in (Inr result, s\<lparr>pathCache := AList.update normalizedPath result c1\<rparr>))"

text \<open>
  \<open>_resolve_path(path)\<close>. A cached node is returned when it is not \<open>null\<close> (its \<open>parent\<close>
  field is never \<open>undefined\<close>, so the validity test of the source is this one); a cached
  \<open>null\<close> is deleted and resolved again. \<open>None\<close>: the call does not return.
\<close>

definition resolve_path :: "string \<Rightarrow> vfs \<Rightarrow> ((error + nat option) \<times> vfs) option" where
  "resolve_path path s =
     (if path = [] \<or> path = ''.'' then Some (Inr (cwd s), s)
      else if path = ''/'' then Some (Inr (root s), s)
      else
        (case normalizePath s path of
           None \<Rightarrow> None
         | Some normalizedPath \<Rightarrow>
             (case map_of (pathCache s) normalizedPath of
                Some (Some cached) \<Rightarrow> Some (Inr (Some cached), s)
              | Some None \<Rightarrow>
                  Some (resolve_miss normalizedPath
                          (s\<lparr>pathCache := AList.delete normalizedPath (pathCache s)\<rparr>))
              | None \<Rightarrow> Some (resolve_miss normalizedPath s))))"

text \<open>
  \<open>_invalidatePathCache(path)\<close>: the entry under \<open>path\<close> as given, then the entries under
  its proper prefixes \<open>segments.slice(0, i).join('/') || '/'\<close> for \<open>i\<close> from
  \<open>segments.length - 1\<close> down to 1.
\<close>

fun invalidateLoop :: "string list \<Rightarrow> nat \<Rightarrow> (string \<times> nat option) list \<Rightarrow> (string \<times> nat option) list" where
  "invalidateLoop segments 0 c = c"
| "invalidateLoop segments (Suc i) c =
     (let joined = js_join ''/'' (take (Suc i) segments);
          parentPath = (if joined = [] then ''/'' else joined)
      in invalidateLoop segments i (AList.delete parentPath c))"

definition invalidatePathCache :: "string \<Rightarrow> vfs \<Rightarrow> vfs" where
  "invalidatePathCache path s =
     (let segments = js_split CHR ''/'' path
      in s\<lparr>pathCache := invalidateLoop segments (length segments - 1) (AList.delete path (pathCache s))\<rparr>)"

section \<open>TreeStructure\<close>

text \<open>\<open>new TreeNode(...)\<close> takes the next unused address of the store.\<close>

definition alloc :: "node \<Rightarrow> vfs \<Rightarrow> nat \<times> vfs" where
  "alloc nd s = (nexta s, s\<lparr>heap := (heap s)(nexta s := nd), nexta := Suc (nexta s)\<rparr>)"

text \<open>
  \<open>TreeStructure.insert(key, parent, properties)\<close> for a parent that is \<open>null\<close> or a node
  (the only forms its callers here pass).
\<close>

definition TreeStructure_insert ::
  "string \<Rightarrow> nat option \<Rightarrow> (string \<times> jval) list \<Rightarrow> vfs \<Rightarrow> (error + nat) \<times> vfs" where
  "TreeStructure_insert k par properties s =
     (if k = [] then (Inl InvalidArgument, s)
      else
        (case alloc (new_TreeNode k properties) s of (n, s1) \<Rightarrow>
           (case par of
              None \<Rightarrow>
                (case root s1 of
                   None \<Rightarrow> (Inr n, s1\<lparr>root := Some n\<rparr>)
                 | Some r \<Rightarrow> (Inl RootExists, s1))
            | Some p \<Rightarrow>
                (case TreeNode_insert p n (heap s1) of
                   Inl e \<Rightarrow> (Inl e, s1)
                 | Inr h \<Rightarrow> (Inr n, s1\<lparr>heap := h\<rparr>)))))"

text \<open>\<open>TreeStructure.delete(node)\<close> for a node argument; its boolean result is not used.\<close>

definition TreeStructure_delete :: "nat \<Rightarrow> vfs \<Rightarrow> vfs" where
  "TreeStructure_delete target s =
     (if Some target = root s then s\<lparr>root := None\<rparr>
      else
        (case parent (heap s target) of
           None \<Rightarrow> s
         | Some p \<Rightarrow> s\<lparr>heap := snd (TreeNode_delete p target (heap s))\<rparr>))"

section \<open>VirtualFileSystem\<close>

text \<open>
  \<open>getUid()\<close> returns an opaque fresh identifier (a random UUID, or a counter-based
  string); it is modelled by its sequence number. \<open>getDate()\<close> reads the clock.
\<close>

definition getUid :: "vfs \<Rightarrow> jval \<times> vfs" where
  "getUid s = (JNum (int (uidCounter s)), s\<lparr>uidCounter := Suc (uidCounter s)\<rparr>)"

definition getDate :: "vfs \<Rightarrow> jval" where
  "getDate s = JStr (clock s)"

definition pwd :: "vfs \<Rightarrow> string option" where
  "pwd s = absolute_path s (cwd s)"

text \<open>The loop of \<open>mkdir\<close> over the segments.\<close>

fun mkdirLoop :: "string list \<Rightarrow> nat option \<Rightarrow> vfs \<Rightarrow> (error + unit) \<times> vfs" where
  "mkdirLoop [] current s = (Inr (), s)"
| "mkdirLoop (segment # segments) current s =
     (case current of
        None \<Rightarrow> (Inl NullDeref, s)
      | Some c \<Rightarrow>
          (case findChild (heap s) c segment of
             None \<Rightarrow>
               (case getUid s of (uid, s1) \<Rightarrow>
                  (case alloc (new_TreeNode segment
                          [(''uid'', uid), (''size'', JNum 0), (''mime'', JStr ''inode/directory''),
                           (''contents'', JNull), (''type'', JStr ''dir''),
                           (''permissions'', JStr ''rwxr-xr-x''), (''modified'', getDate s1),
                           (''user'', JStr (user s1)), (''group'', JStr (user s1))]) s1 of
                     (newDir, s2) \<Rightarrow>
                       (case TreeNode_insert c newDir (heap s2) of
                          Inl e \<Rightarrow> (Inl e, s2)
                        | Inr h \<Rightarrow> mkdirLoop segments (Some newDir) (s2\<lparr>heap := h\<rparr>))))
           | Some existing \<Rightarrow>
               if node_type (heap s) existing = JStr ''dir''
               then mkdirLoop segments (Some existing) s
               else (Inl NotADirectory, s)))"

definition mkdir :: "string \<Rightarrow> vfs \<Rightarrow> ((error + unit) \<times> vfs) option" where
  "mkdir path s =
     (if path = [] then Some (Inl InvalidArgument, s)
      else
        (case mkdirLoop (filter_Boolean (js_split CHR ''/'' (strip_trailing_slashes path)))
                (if startsWith path ''/'' then root s else cwd s) s of
           (Inl e, s1) \<Rightarrow> Some (Inl e, s1)
         | (Inr u, s1) \<Rightarrow> Some (Inr (), invalidatePathCache path s1)))"

definition rmdir :: "string \<Rightarrow> vfs \<Rightarrow> ((error + unit) \<times> vfs) option" where
  "rmdir path s =
     (if path = [] then Some (Inl InvalidArgument, s)
      else
        (case resolve_path (strip_trailing_slashes path) s of
           None \<Rightarrow> None
         | Some (Inl e, s1) \<Rightarrow> Some (Inl e, s1)
         | Some (Inr nd, s1) \<Rightarrow>
             if nd = root s1 then Some (Inl CannotModifyRoot, s1)
             else
               (case nd of
                  None \<Rightarrow> Some (Inl NullDeref, s1)
                | Some n \<Rightarrow>
                    if node_type (heap s1) n \<noteq> JStr ''dir'' then Some (Inl NotADirectory, s1)
                    else if children (heap s1 n) \<noteq> [] then Some (Inl NonEmptyDirectory, s1)
                    else
                      (let s2 = TreeStructure_delete n s1 in
                       case absolute_path s2 (cwd s2) of
                         None \<Rightarrow> None
                       | Some currentPath \<Rightarrow>
                           (case absolute_path s2 (Some n) of
                              None \<Rightarrow> None
                            | Some nodePath \<Rightarrow>
                                let s3 = (if startsWith currentPath nodePath
                                          then s2\<lparr>cwd := (case parent (heap s2 n) of
                                                            Some p \<Rightarrow> Some p
                                                          | None \<Rightarrow> root s2)\<rparr>
                                          else s2)
                                in Some (Inr (), invalidatePathCache path s3))))))"

definition cd :: "string \<Rightarrow> vfs \<Rightarrow> ((error + nat) \<times> vfs) option" where
  "cd path s =
     (if path = [] then Some (Inl InvalidArgument, s)
      else
        (case resolve_path path s of
           None \<Rightarrow> None
         | Some (Inl e, s1) \<Rightarrow> Some (Inl e, s1)
         | Some (Inr nd, s1) \<Rightarrow>
             (case nd of
                None \<Rightarrow> Some (Inl NullDeref, s1)
              | Some targetNode \<Rightarrow>
                  if node_type (heap s1) targetNode \<noteq> JStr ''dir'' then Some (Inl NotADirectory, s1)
                  else Some (Inr targetNode, s1\<lparr>cwd := Some targetNode\<rparr>))))"

text \<open>Assignment to a property of a node: \<open>node.name = v\<close>.\<close>

definition set_prop :: "nat \<Rightarrow> string \<Rightarrow> jval \<Rightarrow> vfs \<Rightarrow> vfs" where
  "set_prop n name v s =
     s\<lparr>heap := (heap s)(n := (heap s n)\<lparr>props := AList.update name v (props (heap s n))\<rparr>)\<rparr>"

text \<open>
  The write branch of \<open>cat\<close> once the node is there: the new contents, its \<open>Blob\<close> size
  (the byte length) and the modification date, then the invalidation. The stored contents
  are a string or falsy in every state the engine builds from strings; another truthy
  value (which JavaScript would convert to a string) is outside the model.
\<close>

definition cat_write :: "string \<Rightarrow> string \<Rightarrow> string \<Rightarrow> nat \<Rightarrow> vfs \<Rightarrow> (error + string) \<times> vfs" where
  "cat_write mode path contents n s =
     (let old = get_prop (props (heap s n)) ''contents'' in
      case (if mode = ''>'' then Some contents
            else if \<not> truthy old then Some ([] @ contents)
            else (case old of JStr c \<Rightarrow> Some (c @ contents) | _ \<Rightarrow> None)) of
        None \<Rightarrow> (Inl OutsideModel, s)
      | Some newContents \<Rightarrow>
          let s1 = set_prop n ''contents'' (JStr newContents) s;
              s2 = set_prop n ''size'' (JNum (int (length newContents))) s1;
              s3 = set_prop n ''modified'' (getDate s2) s2
          in (Inr [], invalidatePathCache path s3))"

text \<open>
  \<open>cat(mode, path, contents)\<close>: \<open>segments.pop()\<close> is the file name (\<open>split\<close> never
  returns an empty array), the remaining segments joined are the parent path, with
  \<open>/\<close> or \<open>.\<close> when that is empty. The empty mode reads and returns the contents; any other
  mode writes (\<open>>\<close> overwrites, everything else appends) and returns nothing, which is the
  empty string here.
\<close>

definition cat_fileName :: "string \<Rightarrow> string" where
  "cat_fileName path = last (js_split CHR ''/'' (strip_trailing_slashes path))"

definition cat_parentPath :: "string \<Rightarrow> string" where
  "cat_parentPath path =
     (let joined = js_join ''/'' (butlast (js_split CHR ''/'' (strip_trailing_slashes path)))
      in if joined \<noteq> [] then joined
         else if startsWith path ''/'' then ''/'' else ''.'')"

definition cat :: "string \<Rightarrow> string \<Rightarrow> string \<Rightarrow> vfs \<Rightarrow> ((error + string) \<times> vfs) option" where
  "cat mode path contents s =
     (if path = [] then Some (Inl InvalidArgument, s)
      else
        let fileName = cat_fileName path;
            parentPath = cat_parentPath path
        in
        (case resolve_path parentPath s of
           None \<Rightarrow> None
         | Some (Inl e, s1) \<Rightarrow> Some (Inl e, s1)
         | Some (Inr nd, s1) \<Rightarrow>
             (case nd of
                None \<Rightarrow> Some (Inl NullDeref, s1)
              | Some par \<Rightarrow>
                  (case findChild (heap s1) par fileName of
                     None \<Rightarrow>
                       if mode \<noteq> [] then
                         (case getUid s1 of (uid, s2) \<Rightarrow>
                            (case alloc (new_TreeNode fileName
                                    [(''type'', JStr ''file''), (''mime'', JStr ''text/plain''),
                                     (''modified'', getDate s1), (''uid'', uid),
                                     (''user'', JStr (user s2)), (''group'', JStr (user s2)),
                                     (''contents'', JStr []), (''permissions'', JStr ''rw-r--r--'')]) s2 of
                               (n, s3) \<Rightarrow>
                                 (case TreeNode_insert par n (heap s3) of
                                    Inl e \<Rightarrow> Some (Inl e, s3)
                                  | Inr h \<Rightarrow> Some (cat_write mode path contents n (s3\<lparr>heap := h\<rparr>)))))
                       else Some (Inl (PathNotFound path), s1)
                   | Some n \<Rightarrow>
                       if node_type (heap s1) n \<noteq> JStr ''file'' then Some (Inl NotAFile, s1)
                       else if mode \<noteq> [] then Some (cat_write mode path contents n s1)
                       else
                         (let c = get_prop (props (heap s1 n)) ''contents'' in
                          if \<not> truthy c then Some (Inr [], s1)
                          else (case c of JStr str \<Rightarrow> Some (Inr str, s1)
                                | _ \<Rightarrow> Some (Inl OutsideModel, s1)))))))"

definition rm :: "string \<Rightarrow> vfs \<Rightarrow> ((error + unit) \<times> vfs) option" where
  "rm path s =
     (if path = [] then Some (Inl InvalidArgument, s)
      else
        (case resolve_path (strip_trailing_slashes path) s of
           None \<Rightarrow> None
         | Some (Inl e, s1) \<Rightarrow> Some (Inl e, s1)
         | Some (Inr nd, s1) \<Rightarrow>
             (case nd of
                None \<Rightarrow> Some (Inl NullDeref, s1)
              | Some n \<Rightarrow>
                  if node_type (heap s1) n \<noteq> JStr ''file'' then Some (Inl NotAFile, s1)
                  else Some (Inr (), invalidatePathCache path (TreeStructure_delete n s1)))))"

text \<open>
  \<open>rn(oldPath, newName)\<close>: the three statements on the parent's map and the node's key,
  one store update each, then the invalidation of \<open>oldPath\<close> as the caller gave it.
\<close>

definition rn :: "string \<Rightarrow> string \<Rightarrow> vfs \<Rightarrow> ((error + unit) \<times> vfs) option" where
  "rn oldPath newName s =
     (if oldPath = [] then Some (Inl InvalidArgument, s)
      else if newName = [] then Some (Inl InvalidArgument, s)
      else
        (case resolve_path oldPath s of
           None \<Rightarrow> None
         | Some (Inl e, s1) \<Rightarrow> Some (Inl e, s1)
         | Some (Inr nd, s1) \<Rightarrow>
             if nd = root s1 then Some (Inl CannotModifyRoot, s1)
             else
               (case nd of
                  None \<Rightarrow> Some (Inl NullDeref, s1)
                | Some n \<Rightarrow>
                    (case parent (heap s1 n) of
                       None \<Rightarrow> Some (Inl NullDeref, s1)
                     | Some p \<Rightarrow>
                         if hasChild (heap s1) p newName then Some (Inl DuplicateName, s1)
                         else
                           let h = heap s1;
                               h1 = h(p := (h p)\<lparr>childrenMap := AList.delete (key (h n)) (childrenMap (h p))\<rparr>);
                               h2 = h1(n := (h1 n)\<lparr>key := newName\<rparr>);
                               h3 = h2(p := (h2 p)\<lparr>childrenMap := AList.update newName n (childrenMap (h2 p))\<rparr>)
                           in Some (Inr (), invalidatePathCache oldPath (s1\<lparr>heap := h3\<rparr>))))))"

text \<open>An argument of \<open>mv\<close>: a path string, or a node object passed directly.\<close>

datatype arg = Path string | Node nat

definition resolve_arg :: "arg \<Rightarrow> vfs \<Rightarrow> ((error + nat option) \<times> vfs) option" where
  "resolve_arg a s = (case a of Node n \<Rightarrow> Some (Inr (Some n), s) | Path p \<Rightarrow> resolve_path p s)"

definition missing_arg :: "arg \<Rightarrow> bool" where
  "missing_arg a = (case a of Node n \<Rightarrow> False | Path p \<Rightarrow> p = [])"

text \<open>
  \<open>mv(source, destination)\<close>: after the two checks the source is deleted from its parent
  (when it has one) and then inserted into the destination; the insertion can still throw.
\<close>

definition mv :: "arg \<Rightarrow> arg \<Rightarrow> vfs \<Rightarrow> ((error + nat) \<times> vfs) option" where
  "mv source destination s =
     (if missing_arg source then Some (Inl InvalidArgument, s)
      else if missing_arg destination then Some (Inl InvalidArgument, s)
      else
        (case resolve_arg source s of
           None \<Rightarrow> None
         | Some (Inl e, s1) \<Rightarrow> Some (Inl e, s1)
         | Some (Inr sourceNode, s1) \<Rightarrow>
             (case resolve_arg destination s1 of
                None \<Rightarrow> None
              | Some (Inl e, s2) \<Rightarrow> Some (Inl e, s2)
              | Some (Inr destNode, s2) \<Rightarrow>
                  (case destNode of
                     None \<Rightarrow> Some (Inl NullDeref, s2)
                   | Some d \<Rightarrow>
                       if node_type (heap s2) d \<noteq> JStr ''dir'' then Some (Inl NotADirectory, s2)
                       else
                         (case sourceNode of
                            None \<Rightarrow> Some (Inl NullDeref, s2)
                          | Some a \<Rightarrow>
                              (case isAncestorOf (heap s2) a d of
                                 None \<Rightarrow> None
                               | Some True \<Rightarrow> Some (Inl CyclicMove, s2)
                               | Some False \<Rightarrow>
                                   let h1 = (case parent (heap s2 a) of
                                               None \<Rightarrow> heap s2
                                             | Some p \<Rightarrow> snd (TreeNode_delete p a (heap s2)))
                                   in
                                   (case TreeNode_insert d a h1 of
                                      Inl e \<Rightarrow> Some (Inl e, s2\<lparr>heap := h1\<rparr>)
                                    | Inr h2 \<Rightarrow> Some (Inr a, s2\<lparr>heap := h2\<rparr>))))))))"

text \<open>A fresh \<open>VirtualFileSystem\<close>: no root, no current directory, an empty cache of capacity 1000.\<close>

definition new_vfs :: "string \<Rightarrow> vfs" where
  "new_vfs now =
     \<lparr>heap = (\<lambda>a. new_TreeNode [] []), nexta = 0, root = None, cwd = None, pathCache = [],
      maxCacheSize = 1000, uidCounter = 0, user = ''root'', clock = now\<rparr>"

section \<open>Declarative records: initStructure and fromJSON\<close>

text \<open>
  \<open>s.length\<close> counts UTF-16 code units; on the UTF-8 bytes of the string these are the
  bytes that are not continuation bytes, and one more for every four-byte sequence.
\<close>

definition utf16_length :: "string \<Rightarrow> nat" where
  "utf16_length s =
     length (filter (\<lambda>c. \<not> (128 \<le> (of_char c :: nat) \<and> (of_char c :: nat) < 192)) s)
     + length (filter (\<lambda>c. 240 \<le> (of_char c :: nat)) s)"

definition js_length :: "jval \<Rightarrow> jval" where
  "js_length v =
     (case v of
        JStr str \<Rightarrow> JNum (int (utf16_length str))
      | JArr xs \<Rightarrow> JNum (int (length xs))
      | JObj fs \<Rightarrow> get_prop fs ''length''
      | _ \<Rightarrow> JUndefined)"

text \<open>\<open>a || b\<close>.\<close>

definition or_else :: "jval \<Rightarrow> jval \<Rightarrow> jval" where
  "or_else a b = (if truthy a then a else b)"

text \<open>The \<open>properties\<close> object literal of \<open>initStructure\<close>: nine fixed fields.\<close>

definition init_properties :: "(string \<times> jval) list \<Rightarrow> jval \<Rightarrow> vfs \<Rightarrow> (string \<times> jval) list" where
  "init_properties fs uid s =
     (let ty = get_prop fs ''type''; isdir = (ty = JStr ''dir'') in
      [(''uid'', uid),
       (''size'', if \<not> isdir
                  then (if truthy (get_prop fs ''contents'') then js_length (get_prop fs ''contents'')
                        else JNum 0)
                  else JNum 0),
       (''mime'', if \<not> isdir then or_else (get_prop fs ''mime'') (JStr ''text/plain'')
                  else JStr ''inode/directory''),
       (''contents'', if \<not> isdir then get_prop fs ''contents'' else JNull),
       (''type'', or_else ty (JStr ''file'')),
       (''permissions'', or_else (get_prop fs ''permissions'')
                           (if isdir then JStr ''rwxr-xr-x'' else JStr ''rw-r--r--'')),
       (''modified'', or_else (get_prop fs ''modified'') (getDate s)),
       (''user'', JStr (user s)),
       (''group'', JStr (user s))])"

lemma size_map_of_jval:
  "map_of fs k = Some v \<Longrightarrow> size v < Suc (size_list (size_prod (\<lambda>_. 0) size) fs)"
  by (induction fs) (auto split: if_splits)

lemma size_get_prop_JArr:
  "get_prop fs k = JArr cs \<Longrightarrow> size_list size cs < size_list (size_prod (\<lambda>_. 0) size) fs"
  using size_map_of_jval [of fs k "JArr cs"]
  by (auto simp: get_prop_def split: option.splits)

text \<open>
  \<open>initStructure(node, parent)\<close> and its loop over \<open>node.contents\<close>. Node keys are
  strings in this embedding: a record whose \<open>key\<close> is truthy and not a string is outside
  the model.
\<close>

function initStructure :: "jval \<Rightarrow> nat option \<Rightarrow> vfs \<Rightarrow> (error + nat) \<times> vfs"
  and initChildren :: "jval list \<Rightarrow> nat \<Rightarrow> vfs \<Rightarrow> (error + unit) \<times> vfs" where
  "initStructure nd par s =
     (case nd of
        JObj fs \<Rightarrow>
          (case get_prop fs ''key'' of
             JStr k \<Rightarrow>
               if k = [] then (Inl InvalidArgument, s)
               else
                 (case getUid s of (uid, s1) \<Rightarrow>
                    (case TreeStructure_insert k par (init_properties fs uid s1) s1 of
                       (Inl e, s2) \<Rightarrow> (Inl e, s2)
                     | (Inr nodeData, s2) \<Rightarrow>
                         let s3 = (if cwd s2 = None \<and> par = None then s2\<lparr>cwd := Some nodeData\<rparr> else s2)
                         in
                         (case get_prop fs ''contents'' of
                            JArr cs \<Rightarrow>
                              (case initChildren cs nodeData s3 of
                                 (Inl e, s4) \<Rightarrow> (Inl e, s4)
                               | (Inr u, s4) \<Rightarrow> (Inr nodeData, s4))
                          | _ \<Rightarrow> (Inr nodeData, s3))))
           | kv \<Rightarrow> if truthy kv then (Inl OutsideModel, s) else (Inl InvalidArgument, s))
      | _ \<Rightarrow> (Inl InvalidArgument, s))"
| "initChildren [] nodeData s = (Inr (), s)"
| "initChildren (childData # rest) nodeData s =
     (case initStructure childData (Some nodeData) s of
        (Inl e, s1) \<Rightarrow> (Inl e, s1)
      | (Inr n, s1) \<Rightarrow> initChildren rest nodeData s1)"
  by pat_completeness auto
termination
  apply (relation "measure (\<lambda>x. case x of Inl (nd, par, s) \<Rightarrow> 2 * size nd
                                        | Inr (cs, n, s) \<Rightarrow> 2 * size_list size cs + 1)")
  apply (auto dest: size_get_prop_JArr)
  done

text \<open>
  The rest of the destructuring \<open>const { key, children, ...properties } = nodeData\<close>:
  every field of the record but \<open>key\<close> and \<open>children\<close>.
\<close>

definition json_properties :: "(string \<times> jval) list \<Rightarrow> (string \<times> jval) list" where
  "json_properties fs = AList.delete ''key'' (AList.delete ''children'' fs)"

text \<open>
  \<open>insertNode(nodeData, parent)\<close> of \<open>TreeStructure.fromJSON\<close> and its loop over
  \<open>children\<close>. Destructuring \<open>null\<close> or \<open>undefined\<close> throws; any other value that is not an
  object has no \<open>key\<close>. Outside the model: a truthy key that is not a string, and a
  record with a field named \<open>parent\<close> or \<open>_childrenMap\<close> (\<open>Object.assign\<close> would overwrite
  the node's own field of that name).
\<close>

function insertNode :: "jval \<Rightarrow> nat option \<Rightarrow> vfs \<Rightarrow> (error + nat) \<times> vfs"
  and insertNodes :: "jval list \<Rightarrow> nat \<Rightarrow> vfs \<Rightarrow> (error + unit) \<times> vfs" where
  "insertNode nodeData par s =
     (case nodeData of
        JObj fs \<Rightarrow>
          if map_of fs ''parent'' = None \<and> map_of fs ''_childrenMap'' = None then
            (case get_prop fs ''key'' of
               JStr k \<Rightarrow>
                 (case TreeStructure_insert k par (json_properties fs) s of
                    (Inl e, s1) \<Rightarrow> (Inl e, s1)
                  | (Inr n, s1) \<Rightarrow>
                      (case get_prop fs ''children'' of
                         JArr cs \<Rightarrow>
                           (case insertNodes cs n s1 of
                              (Inl e, s2) \<Rightarrow> (Inl e, s2)
                            | (Inr u, s2) \<Rightarrow> (Inr n, s2))
                       | _ \<Rightarrow> (Inr n, s1)))
             | kv \<Rightarrow> if truthy kv then (Inl OutsideModel, s) else (Inl InvalidArgument, s))
          else (Inl OutsideModel, s)
      | JUndefined \<Rightarrow> (Inl NullDeref, s)
      | JNull \<Rightarrow> (Inl NullDeref, s)
      | _ \<Rightarrow> (Inl InvalidArgument, s))"
| "insertNodes [] n s = (Inr (), s)"
| "insertNodes (childData # rest) n s =
     (case insertNode childData (Some n) s of
        (Inl e, s1) \<Rightarrow> (Inl e, s1)
      | (Inr c, s1) \<Rightarrow> insertNodes rest n s1)"
  by pat_completeness auto
termination
  apply (relation "measure (\<lambda>x. case x of Inl (nd, par, s) \<Rightarrow> 2 * size nd
                                        | Inr (cs, n, s) \<Rightarrow> 2 * size_list size cs + 1)")
  apply (auto dest: size_get_prop_JArr)
  done

text \<open>
  \<open>TreeStructure.fromJSON(json)\<close>: a new tree (no root yet) is filled by \<open>insertNode\<close>, in
  the same object store; the result is the new tree's root. The \<open>root\<close> field stands for
  the root of the tree under construction during the call and is restored afterwards.
\<close>

definition TreeStructure_fromJSON :: "jval \<Rightarrow> vfs \<Rightarrow> (error + nat option) \<times> vfs" where
  "TreeStructure_fromJSON json s =
     (if \<not> truthy json then (Inr None, s)
      else
        (case insertNode json None (s\<lparr>root := None\<rparr>) of
           (Inl e, s1) \<Rightarrow> (Inl e, s1\<lparr>root := root s\<rparr>)
         | (Inr n, s1) \<Rightarrow> (Inr (root s1), s1\<lparr>root := root s\<rparr>)))"

text \<open>\<open>VirtualFileSystem.fromJSON(json)\<close>: the new tree replaces the old one.\<close>

definition fromJSON :: "jval \<Rightarrow> vfs \<Rightarrow> (error + unit) \<times> vfs" where
  "fromJSON json s =
     (case TreeStructure_fromJSON json s of
        (Inl e, s1) \<Rightarrow> (Inl e, s1)
      | (Inr r, s1) \<Rightarrow> (Inr (), s1\<lparr>root := r, cwd := r, pathCache := []\<rparr>))"

section \<open>Calls of the namespace operations\<close>




text \<open>Two states with the same store, root, current directory and counters: only the path cache may differ.\<close>

definition same_tree :: "vfs \<Rightarrow> vfs \<Rightarrow> bool" where
  "same_tree s s' = (s' = s\<lparr>pathCache := pathCache s'\<rparr>)"


section \<open>Tree shape\<close>

text \<open>
  \<open>parent_chain h n anc\<close>: following \<open>parent\<close> from \<open>n\<close> visits exactly the nodes \<open>anc\<close> and
  then reaches \<open>null\<close>. \<open>reachable h r n\<close>: \<open>n\<close> is \<open>r\<close> or is found from \<open>r\<close> through
  \<open>children\<close> arrays.
\<close>

fun parent_chain :: "(nat \<Rightarrow> node) \<Rightarrow> nat \<Rightarrow> nat list \<Rightarrow> bool" where
  "parent_chain h n [] = (parent (h n) = None)"
| "parent_chain h n (m # ms) = (parent (h n) = Some m \<and> parent_chain h m ms)"

inductive reachable :: "(nat \<Rightarrow> node) \<Rightarrow> nat \<Rightarrow> nat \<Rightarrow> bool"
  for h :: "nat \<Rightarrow> node" and r :: nat where
  here: "reachable h r r"
| child: "reachable h r m \<Longrightarrow> c \<in> set (children (h m)) \<Longrightarrow> reachable h r c"

text \<open>
  \<open>tree_ok\<close>: there is a root, it has no parent, and every entry of a node's map of
  children leads to a node with that key whose parent is the node. \<open>cache_ok\<close>: every
  node in the path cache is what the uncached walk of its path returns. A
  \<open>plain_segment\<close> is a non-empty path segment without a slash.
\<close>

definition tree_ok :: "vfs \<Rightarrow> bool" where
  "tree_ok s =
     ((\<exists>r. root s = Some r \<and> parent (heap s r) = None)
      \<and> (\<forall>m k c. map_of (childrenMap (heap s m)) k = Some c \<longrightarrow>
             key (heap s c) = k \<and> parent (heap s c) = Some m))"

definition cache_ok :: "vfs \<Rightarrow> bool" where
  "cache_ok s =
     (\<forall>p c. map_of (pathCache s) p = Some (Some c) \<longrightarrow> resolvePathUncached s p = Inr (Some c))"

definition plain_segment :: "string \<Rightarrow> bool" where
  "plain_segment g = (g \<noteq> [] \<and> CHR ''/'' \<notin> set g)"

section \<open>The records of a document in pre-order\<close>


text \<open>The key and the property bag of the node at an address.\<close>

definition entry_of :: "(nat \<Rightarrow> node) \<Rightarrow> nat \<Rightarrow> string \<times> (string \<times> jval) list" where
  "entry_of h a = (key (h a), props (h a))"

section \<open>Pattern matching of TreeNode.search\<close>

text \<open>
  \<open>search(pattern)\<close> tests the key of a node either by string equality or with
  \<open>new RegExp("^" + pattern.replace(/\./g, "\\.").replace(/\*/g, ".*") + "$")\<close>. The
  regular expression engine is the platform's; it is modelled here for the fragment the
  construction can produce from ASCII patterns made of ordinary characters, \<open>.\<close>, \<open>*\<close>,
  \<open>+\<close> and \<open>?\<close>: an atom is a literal character or \<open>.\<close> (any character but a line
  terminator), followed by at most one quantifier (\<open>*\<close>, \<open>+\<close>, \<open>?\<close>, each possibly lazy,
  which does not change whether the whole key matches). A quantifier with nothing to
  repeat is the engine's \<open>SyntaxError\<close>; every other metacharacter is outside the model.
\<close>

datatype atom = Lit char | AnyChar

datatype quant = Once | Star | Plus | Opt

datatype regexp_error = InvalidRegExp | Unmodelled

definition line_terminator :: "char \<Rightarrow> bool" where
  "line_terminator c = (c = CHR 0x0A \<or> c = CHR 0x0D)"

fun atom_matches :: "atom \<Rightarrow> char \<Rightarrow> bool" where
  "atom_matches (Lit x) c = (c = x)"
| "atom_matches AnyChar c = (\<not> line_terminator c)"

text \<open>\<open>rmatch r s\<close>: the whole of \<open>s\<close> matches the sequence \<open>r\<close> (the pattern is anchored at both ends).\<close>

function rmatch :: "(atom \<times> quant) list \<Rightarrow> string \<Rightarrow> bool" where
  "rmatch [] s = (s = [])"
| "rmatch ((a, Once) # r) [] = False"
| "rmatch ((a, Once) # r) (c # cs) = (atom_matches a c \<and> rmatch r cs)"
| "rmatch ((a, Opt) # r) [] = rmatch r []"
| "rmatch ((a, Opt) # r) (c # cs) = (rmatch r (c # cs) \<or> (atom_matches a c \<and> rmatch r cs))"
| "rmatch ((a, Star) # r) [] = rmatch r []"
| "rmatch ((a, Star) # r) (c # cs) =
     (rmatch r (c # cs) \<or> (atom_matches a c \<and> rmatch ((a, Star) # r) cs))"
| "rmatch ((a, Plus) # r) [] = False"
| "rmatch ((a, Plus) # r) (c # cs) = (atom_matches a c \<and> rmatch ((a, Star) # r) cs)"
  by pat_completeness auto
termination
  by (relation "measure (\<lambda>(r, s). length r + 2 * length s)") auto

definition skip_lazy :: "string \<Rightarrow> string" where
  "skip_lazy cs = (case cs of [] \<Rightarrow> [] | c # cs' \<Rightarrow> if c = CHR ''?'' then cs' else cs)"

definition take_quant :: "string \<Rightarrow> quant \<times> string" where
  "take_quant cs =
     (case cs of
        [] \<Rightarrow> (Once, [])
      | q # cs' \<Rightarrow>
          if q = CHR ''*'' then (Star, skip_lazy cs')
          else if q = CHR ''+'' then (Plus, skip_lazy cs')
          else if q = CHR ''?'' then (Opt, skip_lazy cs')
          else (Once, cs))"

lemma length_take_quant: "take_quant cs = (q, rest) \<Longrightarrow> length rest \<le> length cs"
  by (auto simp: take_quant_def skip_lazy_def split: list.splits if_splits)

text \<open>The source after the leading \<open>^\<close>, up to and including the final \<open>$\<close>. \<open>CHR 0x5C\<close> is the backslash.\<close>

function parse_body :: "string \<Rightarrow> regexp_error + (atom \<times> quant) list" where
  "parse_body [] = Inl Unmodelled"
| "parse_body (c # cs) =
     (if c = CHR ''$'' \<and> cs = [] then Inr []
      else if c = CHR 0x5C then
        (case cs of
           [] \<Rightarrow> Inl InvalidRegExp
         | d # ds \<Rightarrow>
             if d = CHR ''.'' then
               (case take_quant ds of (q, rest) \<Rightarrow>
                  (case parse_body rest of Inl e \<Rightarrow> Inl e | Inr r \<Rightarrow> Inr ((Lit d, q) # r)))
             else Inl Unmodelled)
      else if c = CHR ''*'' \<or> c = CHR ''+'' \<or> c = CHR ''?'' then Inl InvalidRegExp
      else if c \<in> set ''^$()[]{}|'' then Inl Unmodelled
      else
        (case take_quant cs of (q, rest) \<Rightarrow>
           (case parse_body rest of
              Inl e \<Rightarrow> Inl e
            | Inr r \<Rightarrow> Inr ((if c = CHR ''.'' then AnyChar else Lit c, q) # r))))"
  by pat_completeness auto
termination
  by (relation "measure length") (auto dest!: length_take_quant [OF sym])

definition new_RegExp :: "string \<Rightarrow> regexp_error + (atom \<times> quant) list" where
  "new_RegExp src =
     (case src of
        [] \<Rightarrow> Inl Unmodelled
      | c # cs \<Rightarrow> if c = CHR ''^'' then parse_body cs else Inl Unmodelled)"

text \<open>\<open>s.replace(/c/g, r)\<close> for a single character \<open>c\<close>.\<close>

definition replace_all :: "char \<Rightarrow> string \<Rightarrow> string \<Rightarrow> string" where
  "replace_all c r s = concat (map (\<lambda>x. if x = c then r else [x]) s)"

definition regex_source :: "string \<Rightarrow> string" where
  "regex_source pattern =
     ''^'' @ replace_all CHR ''*'' ''.*'' (replace_all CHR ''.'' [CHR 0x5C, CHR ''.''] pattern) @ ''$''"

definition ascii :: "string \<Rightarrow> bool" where
  "ascii s = list_all (\<lambda>c. (of_char c :: nat) < 128) s"

text \<open>
  The test \<open>search\<close> applies to one key: does the node with key \<open>k\<close> go into the results
  for \<open>pattern\<close>.
\<close>

definition search_matches :: "string \<Rightarrow> string \<Rightarrow> regexp_error + bool" where
  "search_matches pattern k =
     (if CHR ''*'' \<notin> set pattern \<and> CHR ''.'' \<notin> set pattern then Inr (k = pattern)
      else if ascii pattern \<and> ascii k then
        (case new_RegExp (regex_source pattern) of
           Inl e \<Rightarrow> Inl e
         | Inr r \<Rightarrow> Inr (rmatch r k))
      else Inl Unmodelled)"

section \<open>Example states\<close>

text \<open>A store written as the list of its nodes: address \<open>a\<close> holds the \<open>a\<close>-th node.\<close>

definition heap_of :: "node list \<Rightarrow> nat \<Rightarrow> node" where
  "heap_of ns a = (if a < length ns then ns ! a else new_TreeNode [] [])"

definition dir_props :: "int \<Rightarrow> (string \<times> jval) list" where
  "dir_props uid =
     [(''uid'', JNum uid), (''size'', JNum 0), (''mime'', JStr ''inode/directory''),
      (''contents'', JNull), (''type'', JStr ''dir''), (''permissions'', JStr ''rwxr-xr-x''),
      (''modified'', JStr ''now''), (''user'', JStr ''root''), (''group'', JStr ''root'')]"

text \<open>The record of a small tree: \<open>/a/b\<close> and \<open>/c\<close>, all directories.\<close>

definition record1 :: jval where
  "record1 =
     JObj [(''key'', JStr ''~''), (''type'', JStr ''dir''), (''contents'', JArr [
        JObj [(''key'', JStr ''a''), (''type'', JStr ''dir''), (''contents'', JArr [
           JObj [(''key'', JStr ''b''), (''type'', JStr ''dir'')]])],
        JObj [(''key'', JStr ''c''), (''type'', JStr ''dir'')]])]"

text \<open>The state \<open>initStructure(record1, null)\<close> builds (lemma \<open>fs1_reachable\<close>).\<close>

definition fs1 :: vfs where
  "fs1 =
     \<lparr>heap = heap_of
        [\<lparr>key = ''~'', parent = None, children = [1, 3],
          childrenMap = [(''a'', 1), (''c'', 3)], props = dir_props 0\<rparr>,
         \<lparr>key = ''a'', parent = Some 0, children = [2],
          childrenMap = [(''b'', 2)], props = dir_props 1\<rparr>,
         \<lparr>key = ''b'', parent = Some 1, children = [], childrenMap = [], props = dir_props 2\<rparr>,
         \<lparr>key = ''c'', parent = Some 0, children = [], childrenMap = [], props = dir_props 3\<rparr>],
      nexta = 4, root = Some 0, cwd = Some 0, pathCache = [],
      maxCacheSize = 1000, uidCounter = 4, user = ''root'', clock = ''now''\<rparr>"


section \<open>Scenarios\<close>

text \<open>
  Resolve \<open>/a/b\<close> (which caches it), move \<open>/a/b\<close> into \<open>/c\<close>, resolve \<open>/a/b\<close> again; the
  last component is the uncached walk of \<open>/a/b\<close> after the move.
\<close>

definition stale_after_mv ::
  "((error + nat option) \<times> (error + nat) \<times> (error + nat option) \<times> (error + nat option)) option" where
  "stale_after_mv = do {
     (before, s1) \<leftarrow> resolve_path ''/a/b'' fs1;
     (moved, s2) \<leftarrow> mv (Path ''/a/b'') (Path ''/c'') s1;
     (after, s3) \<leftarrow> resolve_path ''/a/b'' s2;
     Some (before, moved, after, resolvePathUncached s2 ''/a/b'')
   }"


text \<open>
  Move the node \<open>/a\<close> into itself, both passed as node objects: the outcome, the children
  of the node before and after, and its parent after.
\<close>

definition mv_node_into_itself :: "((error + nat) \<times> nat list \<times> nat list \<times> nat option) option" where
  "mv_node_into_itself = do {
     (moved, s1) \<leftarrow> mv (Node 1) (Node 1) fs1;
     Some (moved, children (heap fs1 1), children (heap s1 1), parent (heap s1 1))
   }"

text \<open>
  Create \<open>/b\<close>, change into it, remove the empty directory \<open>/a/b\<close>: the current path before,
  the outcome of the removal, the current path after.
\<close>

definition rmdir_elsewhere :: "(string \<times> (error + unit) \<times> string) option" where
  "rmdir_elsewhere = do {
     (made, s1) \<leftarrow> mkdir ''/b'' fs1;
     (changed, s2) \<leftarrow> cd ''/b'' s1;
     before \<leftarrow> pwd s2;
     (removed, s3) \<leftarrow> rmdir ''/a/b'' s2;
     after \<leftarrow> pwd s3;
     Some (before, removed, after)
   }"

text \<open>
  In the root directory, rename \<open>a\<close> (a relative path) to \<open>x\<close>, then resolve \<open>a\<close> again;
  the last component is the uncached walk of \<open>/a\<close> after the renaming.
\<close>

definition rn_relative ::
  "((error + unit) \<times> (error + nat option) \<times> (error + nat option)) option" where
  "rn_relative = do {
     (renamed, s1) \<leftarrow> rn ''a'' ''x'' fs1;
     (old, s2) \<leftarrow> resolve_path ''a'' s1;
     Some (renamed, old, resolvePathUncached s1 ''/a'')
   }"

text \<open>
  Create \<open>/c/b\<close>; visit \<open>/a/b\<close> and return to the root; move \<open>/a/b\<close> to the root and
  \<open>/c/b\<close> into \<open>/a\<close>, so that \<open>/a/b\<close> is a directory again (another node); change to
  \<open>/a/b\<close>. The outcome of that call, the current path after it, the normalized form of
  \<open>/a/b\<close> and the uncached walk of \<open>/a/b\<close>.
\<close>

definition cd_after_moves ::
  "((error + nat) \<times> string \<times> string option \<times> (error + nat option)) option" where
  "cd_after_moves = do {
     (made, s1) \<leftarrow> mkdir ''/c/b'' fs1;
     (r1, s2) \<leftarrow> cd ''/a/b'' s1;
     (r2, s3) \<leftarrow> cd ''/'' s2;
     (r3, s4) \<leftarrow> mv (Path ''/a/b'') (Path ''/'') s3;
     (r4, s5) \<leftarrow> mv (Path ''/c/b'') (Path ''/a'') s4;
     (changed, s6) \<leftarrow> cd ''/a/b'' s5;
     now \<leftarrow> pwd s6;
     Some (changed, now, normalizePath s5 ''/a/b'', resolvePathUncached s5 ''/a/b'')
   }"

text \<open>
  Create \<open>/a/a\<close>, then move \<open>/a\<close> into itself: the outcome, the parent of \<open>/a\<close> after the
  call and the children of the root after the call.
\<close>

definition mv_into_itself_duplicate :: "((error + nat) \<times> nat option \<times> nat list) option" where
  "mv_into_itself_duplicate = do {
     (made, s1) \<leftarrow> mkdir ''/a/a'' fs1;
     (moved, s2) \<leftarrow> mv (Path ''/a'') (Path ''/a'') s1;
     Some (moved, parent (heap s2 1), children (heap s2 0))
   }"

section \<open>Evaluation\<close>

lemmas eval_defs = get_prop_def new_TreeNode_def node_type_def findChild_def hasChild_def
  TreeNode_insert_def TreeNode_delete_def isAncestorOf_def ancestorLoop.simps absoluteLoop.simps
  absolute_path_def normalizePath_def resolvePathUncached_def resolve_miss_def resolve_path_def
  invalidatePathCache_def alloc_def TreeStructure_insert_def TreeStructure_delete_def
  getUid_def getDate_def pwd_def mkdir_def rmdir_def cd_def set_prop_def cat_write_def cat_def
  cat_fileName_def cat_parentPath_def rm_def rn_def resolve_arg_def missing_arg_def mv_def
  strip_trailing_slashes_def filter_Boolean_def js_length_def or_else_def new_vfs_def
  init_properties_def json_properties_def AList.delete_eq Let_def heap_of_def dir_props_def

lemmas regex_defs = search_matches_def ascii_def regex_source_def replace_all_def new_RegExp_def
  take_quant_def skip_lazy_def line_terminator_def

lemma fs1_reachable: "initStructure record1 None (new_vfs ''now'') = (Inr 0, fs1)"
  by (auto simp add: record1_def fs1_def eval_defs fun_eq_iff nth_Cons')


lemma fs1_links: "\<forall>m c. c \<in> set (children (heap fs1 m)) \<longrightarrow> parent (heap fs1 c) = Some m"
  by (auto simp: fs1_def heap_of_def new_TreeNode_def nth_Cons' split: if_splits)

lemma fs1_tree_ok: "tree_ok fs1 \<and> cache_ok fs1"
  by (auto simp: tree_ok_def cache_ok_def fs1_def heap_of_def new_TreeNode_def nth_Cons'
      split: if_splits)

lemma js_split_not_Nil [simp]: "js_split c s \<noteq> []"
  by (induction s) (auto split: list.splits)

section \<open>Resolution leaves the tree alone\<close>

lemma same_tree_refl [simp]: "same_tree s s"
  by (simp add: same_tree_def)

lemma same_tree_cache [simp]: "same_tree s (s\<lparr>pathCache := c\<rparr>)"
  by (simp add: same_tree_def)

lemma same_tree_trans: "same_tree s s1 \<Longrightarrow> same_tree s1 s2 \<Longrightarrow> same_tree s s2"
  by (metis (no_types, lifting) same_tree_def vfs.surjective vfs.update_convs(5))

lemma same_tree_heap: "same_tree s s' \<Longrightarrow> heap s' = heap s"
  by (metis same_tree_def vfs.select_convs(1) vfs.surjective vfs.update_convs(5))

lemma same_tree_root: "same_tree s s' \<Longrightarrow> root s' = root s"
  by (metis same_tree_def vfs.select_convs(3) vfs.surjective vfs.update_convs(5))

lemma resolve_miss_same_tree: "resolve_miss p s = (r, s') \<Longrightarrow> same_tree s s'"
  by (auto simp: resolve_miss_def Let_def split: sum.splits)

lemma resolve_path_same_tree: "resolve_path p s = Some (r, s') \<Longrightarrow> same_tree s s'"
  by (auto simp: resolve_path_def split: if_splits option.splits
      dest!: resolve_miss_same_tree elim: same_tree_trans [rotated])

lemma resolve_arg_same_tree: "resolve_arg a s = Some (r, s') \<Longrightarrow> same_tree s s'"
  by (auto simp: resolve_arg_def split: arg.splits dest: resolve_path_same_tree)

section \<open>Failing calls\<close>




















section \<open>Moving a directory into itself\<close>

lemma parent_chain_unique: "parent_chain h n xs \<Longrightarrow> parent_chain h n ys \<Longrightarrow> xs = ys"
proof (induction xs arbitrary: n ys)
  case Nil
  then show ?case by (cases ys) auto
next
  case (Cons x xs)
  then show ?case by (cases ys) auto
qed

lemma parent_chain_suffix: "parent_chain h n (xs @ m # ys) \<Longrightarrow> parent_chain h m ys"
  by (induction xs arbitrary: n) auto

lemma parent_chain_not_self:
  assumes "parent_chain h a anc"
  shows "a \<notin> set anc"
proof
  assume "a \<in> set anc"
  then obtain xs ys where anc: "anc = xs @ a # ys"
    by (auto dest: split_list)
  with assms have "parent_chain h a ys"
    by (auto dest: parent_chain_suffix)
  with assms have "anc = ys"
    by (rule parent_chain_unique)
  with anc show False by simp
qed

lemma ancestorLoop_chain:
  "parent_chain h n anc \<Longrightarrow> a \<notin> set anc \<Longrightarrow> ancestorLoop h a (parent (h n)) = Some False"
proof (induction anc arbitrary: n)
  case Nil
  then show ?case by (simp add: ancestorLoop.simps)
next
  case (Cons m ms)
  then have "ancestorLoop h a (parent (h m)) = Some False" by simp
  with Cons.prems show ?case
    by (simp add: ancestorLoop.simps [of h a "Some m"])
qed

lemma not_own_ancestor: "parent_chain h a anc \<Longrightarrow> isAncestorOf h a a = Some False"
  unfolding isAncestorOf_def
  by (rule ancestorLoop_chain) (auto dest: parent_chain_not_self)

text \<open>The store after a node \<open>a\<close> with parent \<open>p\<close> was moved into itself.\<close>

lemma cut_off:
  assumes links: "\<forall>m c. c \<in> set (children (h m)) \<longrightarrow> parent (h c) = Some m"
    and par: "parent (h a) = Some p"
    and root: "parent (h r) = None"
    and pa: "p \<noteq> a"
    and h'p: "a \<notin> set (children (h' p))" "set (children (h' p)) \<subseteq> set (children (h p))"
    and h': "\<forall>m. m \<noteq> p \<and> m \<noteq> a \<longrightarrow> children (h' m) = children (h m)"
    and reach': "reachable h' r n"
  shows "\<not> reachable h a n"
  using reach'
proof (induction rule: reachable.induct)
  case here
  show ?case
  proof
    assume "reachable h a r"
    then show False
      using root par links by (cases rule: reachable.cases) auto
  qed
next
  case (child m c)
  have ma: "m \<noteq> a" using child.IH reachable.here by auto
  have c_of: "c \<in> set (children (h m))"
  proof (cases "m = p")
    case True
    with child.hyps h'p show ?thesis by auto
  next
    case False
    with ma h' child.hyps show ?thesis by auto
  qed
  then have pc: "parent (h c) = Some m" using links by blast
  show ?case
  proof
    assume "reachable h a c"
    then show False
    proof (cases rule: reachable.cases)
      case here
      with pc par have "m = p" by simp
      with child.hyps h'p here show False by auto
    next
      case (child m')
      with links have "parent (h c) = Some m'" by blast
      with pc have "m' = m" by simp
      with child have "reachable h a m" by simp
      with \<open>\<not> reachable h a m\<close> show False by simp
    qed
  qed
qed


text \<open>
  Claim C9 fails as stated for a directory that has a child with
  its own name: \<open>/a\<close> with a child \<open>/a/a\<close> is deleted from the root, and then the
  insertion into itself throws the duplicate-name error, so the call fails (not with
  CyclicMove) and leaves the node with parent \<open>null\<close>, not as its own child.
\<close>

theorem mv_into_itself_duplicate_fails:
  "mv_into_itself_duplicate = Some (Inl DuplicateName, None, [3])"
  by (simp add: mv_into_itself_duplicate_def fs1_def eval_defs)

text \<open>
  Claim C9, as amended: let source and destination both resolve to a directory \<open>a\<close> with
  parent \<open>p\<close>, in a tree (the parent chain of \<open>a\<close> ends, every child's \<open>parent\<close> is the
  node listing it, \<open>p\<close> lists its children once, the root has no parent), and let \<open>a\<close>
  have no child with its own name. Then \<open>mv\<close> raises no error: it returns \<open>a\<close>, \<open>a\<close> is
  gone from the children of \<open>p\<close> and is appended to its own children, \<open>a.parent\<close> is \<open>a\<close>,
  and no node of the subtree of \<open>a\<close> can be reached from the root any more.
\<close>

theorem mv_into_itself:
  assumes args: "\<not> missing_arg source" "\<not> missing_arg destination"
    and src: "resolve_arg source s = Some (Inr (Some a), s1)"
    and dst: "resolve_arg destination s1 = Some (Inr (Some a), s2)"
    and dir: "node_type (heap s) a = JStr ''dir''"
    and root: "root s = Some r" "parent (heap s r) = None"
    and par: "parent (heap s a) = Some p"
    and chain: "parent_chain (heap s) a anc"
    and links: "\<forall>m c. c \<in> set (children (heap s m)) \<longrightarrow> parent (heap s c) = Some m"
    and once: "distinct (children (heap s p))"
    and nodup: "\<not> hasChild (heap s) a (key (heap s a))"
  shows "\<exists>s'. mv source destination s = Some (Inr a, s')
           \<and> parent (heap s' a) = Some a
           \<and> children (heap s' a) = children (heap s a) @ [a]
           \<and> children (heap s' p) = remove1 a (children (heap s p))
           \<and> a \<notin> set (children (heap s' p))
           \<and> (\<forall>n. reachable (heap s) a n \<longrightarrow> \<not> reachable (heap s') r n)"
proof -
  have h1: "heap s1 = heap s" using src by (auto dest!: resolve_arg_same_tree same_tree_heap)
  have h2: "heap s2 = heap s" using dst h1 by (auto dest!: resolve_arg_same_tree same_tree_heap)
  have anc: "isAncestorOf (heap s) a a = Some False"
    using chain by (rule not_own_ancestor)
  have pa: "p \<noteq> a"
    using chain par parent_chain_not_self [OF chain] by (cases anc) auto
  define hd where "hd = snd (TreeNode_delete p a (heap s))"
  have hd_a: "key (hd a) = key (heap s a)" "childrenMap (hd a) = childrenMap (heap s a)"
    "children (hd a) = children (heap s a)"
    using pa by (auto simp: hd_def TreeNode_delete_def Let_def)
  have hd_p: "children (hd p) = remove1 a (children (heap s p))"
    using pa by (auto simp: hd_def TreeNode_delete_def Let_def remove1_idem)
  have hd_other: "\<forall>m. m \<noteq> p \<and> m \<noteq> a \<longrightarrow> children (hd m) = children (heap s m)"
    by (auto simp: hd_def TreeNode_delete_def Let_def)
  from nodup hd_a obtain hi where hi: "TreeNode_insert a a hd = Inr hi"
    by (auto simp: TreeNode_insert_def hasChild_def Let_def)
  have hi_a: "parent (hi a) = Some a" "children (hi a) = children (heap s a) @ [a]"
    using hi hd_a by (auto simp: TreeNode_insert_def Let_def split: if_splits)
  have hi_other: "\<forall>m. m \<noteq> a \<longrightarrow> children (hi m) = children (hd m)"
    using hi by (auto simp: TreeNode_insert_def Let_def split: if_splits)
  have mv: "mv source destination s = Some (Inr a, s2\<lparr>heap := hi\<rparr>)"
    using args src dst dir anc par hi
    by (simp add: mv_def h1 h2 Let_def hd_def)
  have hi_p: "children (hi p) = remove1 a (children (heap s p))"
    using hi_other pa hd_p by simp
  have gone: "a \<notin> set (children (hi p))"
    using hi_p once by simp
  have sub: "set (children (hi p)) \<subseteq> set (children (heap s p))"
    using hi_p by (simp add: set_remove1_subset)
  have rest: "\<forall>m. m \<noteq> p \<and> m \<noteq> a \<longrightarrow> children (hi m) = children (heap s m)"
    using hi_other hd_other by simp
  have "\<forall>n. reachable (heap s) a n \<longrightarrow> \<not> reachable hi r n"
    using cut_off [OF links par root(2) pa gone sub rest] by blast
  with mv hi_a hi_p gone show ?thesis by simp
qed


theorem mv_into_itself_witness:
  "\<exists>s'. mv (Path ''/a'') (Path ''/a'') fs1 = Some (Inr 1, s')
      \<and> parent (heap s' 1) = Some 1
      \<and> children (heap s' 1) = [2, 1]
      \<and> children (heap s' 0) = [3]
      \<and> \<not> reachable (heap s') 0 1
      \<and> \<not> reachable (heap s') 0 2"
proof -
  let ?s1 = "fs1\<lparr>pathCache := [(''/a'', Some 1)]\<rparr>"
  have a1: "\<not> missing_arg (Path ''/a'')" by (simp add: missing_arg_def)
  have src: "resolve_arg (Path ''/a'') fs1 = Some (Inr (Some 1), ?s1)"
    by (simp add: fs1_def eval_defs)
  have dst: "resolve_arg (Path ''/a'') ?s1 = Some (Inr (Some 1), ?s1)"
    by (simp add: fs1_def eval_defs)
  have dir: "node_type (heap fs1) 1 = JStr ''dir''"
    by (simp add: fs1_def eval_defs)
  have root: "root fs1 = Some 0" "parent (heap fs1 0) = None"
    by (simp_all add: fs1_def heap_of_def)
  have par: "parent (heap fs1 1) = Some 0"
    by (simp add: fs1_def heap_of_def)
  have chain: "parent_chain (heap fs1) 1 [0]"
    by (simp add: fs1_def heap_of_def)
  have once: "distinct (children (heap fs1 0))"
    by (simp add: fs1_def heap_of_def)
  have nodup: "\<not> hasChild (heap fs1) 1 (key (heap fs1 1))"
    by (simp add: fs1_def heap_of_def hasChild_def)
  have r1: "reachable (heap fs1) 1 1" by (rule reachable.here)
  have r2: "reachable (heap fs1) 1 2"
    by (rule reachable.child [OF r1]) (simp add: fs1_def heap_of_def)
  have kids: "children (heap fs1 1) = [2]" "children (heap fs1 0) = [1, 3]"
    by (simp_all add: fs1_def heap_of_def)
  from mv_into_itself [OF a1 a1 src dst dir root par chain fs1_links once nodup] r1 r2 kids
  show ?thesis by auto
qed

text \<open>
  Claim C3. A successful move does not always leave the children of the moved node
  intact: the ancestor test of \<open>mv\<close> is strict, so moving the node \<open>/a\<close> into itself is
  not refused ("Cannot move directory into itself" is the message of that test); the call
  returns the node, whose children \<open>[b]\<close> have become \<open>[b, a]\<close> and whose parent is itself.
\<close>

theorem mv_into_itself_changes_children:
  "mv_node_into_itself = Some (Inr 1, [2], [2, 1], Some 1)"
  by (simp add: mv_node_into_itself_def fs1_def eval_defs)

lemma ancestorLoop_member:
  "parent_chain h n anc \<Longrightarrow> a \<in> set anc \<Longrightarrow> ancestorLoop h a (parent (h n)) = Some True"
proof (induction anc arbitrary: n)
  case Nil
  then show ?case by simp
next
  case (Cons m ms)
  show ?case
  proof (cases "m = a")
    case True
    with Cons.prems show ?thesis by (simp add: ancestorLoop.simps [of h a "Some a"])
  next
    case False
    with Cons have "ancestorLoop h a (parent (h m)) = Some True" by simp
    with Cons.prems False show ?thesis by (simp add: ancestorLoop.simps [of h a "Some m"])
  qed
qed

text \<open>
  What does hold of \<open>mv\<close> (in support of the reading of claim C3): a move into a strict
  descendant fails with CyclicMove and changes at most the path cache; and a successful
  move returns the source node itself, with its key and properties, as a child of the
  destination, its own children untouched unless it was moved into itself (or was its own
  parent before).
\<close>

lemma mv_into_descendant_fails:
  assumes args: "\<not> missing_arg source" "\<not> missing_arg destination"
    and src: "resolve_arg source s = Some (Inr (Some a), s1)"
    and dst: "resolve_arg destination s1 = Some (Inr (Some d), s2)"
    and dir: "node_type (heap s) d = JStr ''dir''"
    and chain: "parent_chain (heap s) d anc"
    and desc: "a \<in> set anc"
  shows "mv source destination s = Some (Inl CyclicMove, s2) \<and> same_tree s s2"
proof -
  have t1: "same_tree s s1" using src by (rule resolve_arg_same_tree)
  have t2: "same_tree s1 s2" using dst by (rule resolve_arg_same_tree)
  have t: "same_tree s s2" using t1 t2 by (rule same_tree_trans)
  then have h2: "heap s2 = heap s" by (rule same_tree_heap)
  have "isAncestorOf (heap s) a d = Some True"
    unfolding isAncestorOf_def using chain desc by (rule ancestorLoop_member)
  with args src dst dir h2 t show ?thesis
    by (simp add: mv_def)
qed

lemma mv_success_reinserts:
  assumes "mv source destination s = Some (Inr x, s')"
  shows "\<exists>d s1 s2. resolve_arg source s = Some (Inr (Some x), s1)
           \<and> resolve_arg destination s1 = Some (Inr (Some d), s2)
           \<and> parent (heap s' x) = Some d
           \<and> x \<in> set (children (heap s' d))
           \<and> key (heap s' x) = key (heap s x)
           \<and> props (heap s' x) = props (heap s x)
           \<and> (x \<noteq> d \<and> parent (heap s x) \<noteq> Some x \<longrightarrow>
                  children (heap s' x) = children (heap s x)
                  \<and> childrenMap (heap s' x) = childrenMap (heap s x))"
proof -
  from assms have "\<exists>a d s1 s2 h'.
      resolve_arg source s = Some (Inr (Some a), s1)
      \<and> resolve_arg destination s1 = Some (Inr (Some d), s2)
      \<and> TreeNode_insert d a
            (case parent (heap s2 a) of None \<Rightarrow> heap s2
             | Some p \<Rightarrow> snd (TreeNode_delete p a (heap s2))) = Inr h'
      \<and> heap s' = h' \<and> x = a"
    by (auto simp: mv_def Let_def
        split: if_split_asm option.split_asm sum.split_asm bool.split_asm)
  then obtain a d s1 s2 h' where
    src: "resolve_arg source s = Some (Inr (Some a), s1)"
    and dst: "resolve_arg destination s1 = Some (Inr (Some d), s2)"
    and ins: "TreeNode_insert d a
                (case parent (heap s2 a) of None \<Rightarrow> heap s2
                 | Some p \<Rightarrow> snd (TreeNode_delete p a (heap s2))) = Inr h'"
    and hs: "heap s' = h'"
    and x: "x = a"
    by blast
  have h2: "heap s2 = heap s"
    using src dst by (auto dest!: resolve_arg_same_tree same_tree_heap)
  show ?thesis
    using src dst x ins unfolding h2 hs
    by (auto simp: TreeNode_insert_def TreeNode_delete_def Let_def
        split: if_splits option.splits)
qed

section \<open>The path cache after moves and renamings\<close>

text \<open>
  Claim C1. \<open>mv\<close> never invalidates the path cache. After \<open>/a/b\<close> was resolved (and
  cached) and then moved into \<open>/c\<close>, resolving \<open>/a/b\<close> again returns the moved node
  (address 2) from the cache, while the walk from the root fails with PathNotFound.
\<close>

theorem stale_cache_after_mv:
  "stale_after_mv = Some (Inr (Some 2), Inr 2, Inr (Some 2), Inl (PathNotFound ''/a/b''))"
  by (simp add: stale_after_mv_def fs1_def eval_defs)

text \<open>
  Claim C5. \<open>rn\<close> invalidates the old path as the caller wrote it, while the cache is
  keyed by normalized paths. In the root directory, after renaming \<open>a\<close> (a relative
  path) to \<open>x\<close>, resolving \<open>a\<close> again succeeds: it returns the renamed node (address 1)
  from the entry under \<open>/a\<close>, while the walk from the root fails with PathNotFound.
\<close>

theorem rn_relative_leaves_stale_entry:
  "rn_relative = Some (Inr (), Inr (Some 1), Inl (PathNotFound ''/a''))"
  by (simp add: rn_relative_def fs1_def eval_defs)

lemma js_split_plain: "c \<notin> set x \<Longrightarrow> js_split c x = [x]"
  by (induction x) auto

lemma js_split_append: "c \<notin> set x \<Longrightarrow> js_split c (x @ c # rest) = x # js_split c rest"
  by (induction x) (auto split: list.splits)

lemma js_split_pieces: "g \<in> set (js_split c s) \<Longrightarrow> c \<notin> set g"
  by (induction s arbitrary: g) (auto split: if_splits list.splits)

lemma js_split_join:
  "segs \<noteq> [] \<Longrightarrow> \<forall>g\<in>set segs. CHR ''/'' \<notin> set g \<Longrightarrow> js_split CHR ''/'' (js_join ''/'' segs) = segs"
proof (induction "''/''" segs rule: js_join.induct)
  case 1
  then show ?case by simp
next
  case (2 x)
  then show ?case by (simp add: js_split_plain)
next
  case (3 x y ys)
  then show ?case by (simp add: js_split_append)
qed

lemma canonical_segments:
  assumes "\<forall>g\<in>set segs. plain_segment g" "segs \<noteq> []"
  shows "filter_Boolean (js_split CHR ''/'' (CHR ''/'' # js_join ''/'' segs)) = segs"
    and "CHR ''/'' # js_join ''/'' segs \<noteq> ''/''"
proof -
  have "js_split CHR ''/'' (js_join ''/'' segs) = segs"
    using assms by (intro js_split_join) (auto simp: plain_segment_def)
  then show "filter_Boolean (js_split CHR ''/'' (CHR ''/'' # js_join ''/'' segs)) = segs"
    using assms by (auto simp: filter_Boolean_def plain_segment_def filter_id_conv)
  from assms obtain x xs where "segs = x # xs" "x \<noteq> []"
    by (cases segs) (auto simp: plain_segment_def)
  then show "CHR ''/'' # js_join ''/'' segs \<noteq> ''/''"
    by (cases xs) auto
qed

lemma normalizeLoop_plain:
  "\<forall>g\<in>set segments. plain_segment g \<Longrightarrow> \<forall>g\<in>set resolved. plain_segment g \<Longrightarrow>
   \<forall>g\<in>set (normalizeLoop segments resolved). plain_segment g"
proof (induction segments arbitrary: resolved)
  case Nil
  then show ?case by simp
next
  case (Cons seg segments)
  have b: "\<forall>g\<in>set (butlast resolved). plain_segment g"
    using Cons.prems(2) by (auto dest: in_set_butlastD)
  have t: "\<forall>g\<in>set segments. plain_segment g" using Cons.prems(1) by simp
  have a: "\<forall>g\<in>set (resolved @ [seg]). plain_segment g" using Cons.prems by simp
  show ?case
    using Cons.IH [OF t b] Cons.IH [OF t a] Cons.IH [OF t Cons.prems(2)] by simp
qed

lemma normalizePath_canonical:
  assumes "normalizePath s path = Some np" "path \<noteq> []" "path \<noteq> ''.''"
  shows "\<exists>segs. np = CHR ''/'' # js_join ''/'' segs \<and> (\<forall>g\<in>set segs. plain_segment g)"
proof (cases "path = ''/''")
  case True
  with assms have "np = CHR ''/'' # js_join ''/'' []" by (simp add: normalizePath_def)
  then show ?thesis by (intro exI [of _ "[]"]) simp
next
  case False
  with assms obtain basePath where
    np: "np = CHR ''/'' # js_join ''/''
           (normalizeLoop (filter (\<lambda>g. g \<noteq> [] \<and> g \<noteq> ''.'') (js_split CHR ''/'' path))
              (if basePath = ''/'' then [] else filter_Boolean (js_split CHR ''/'' basePath)))"
    by (auto simp: normalizePath_def Let_def split: option.splits)
  have "\<forall>g\<in>set (filter (\<lambda>g. g \<noteq> [] \<and> g \<noteq> ''.'') (js_split CHR ''/'' path)). plain_segment g"
    by (auto simp: plain_segment_def dest: js_split_pieces)
  moreover have "\<forall>g\<in>set (if basePath = ''/'' then [] else filter_Boolean (js_split CHR ''/'' basePath)).
                   plain_segment g"
    by (auto simp: plain_segment_def filter_Boolean_def dest: js_split_pieces)
  ultimately show ?thesis
    using np normalizeLoop_plain by blast
qed

lemma walk_absoluteLoop:
  assumes links: "\<forall>m k c. map_of (childrenMap (h m)) k = Some c \<longrightarrow>
                    key (h c) = k \<and> parent (h c) = Some m"
    and root: "parent (h r) = None"
  shows "walk h (Some c) done segs = Inr res \<Longrightarrow>
         \<exists>n. res = Some n \<and>
           (\<forall>acc. absoluteLoop h (Some r) (Some n) acc = absoluteLoop h (Some r) (Some c) (segs @ acc))"
proof (induction segs arbitrary: c "done")
  case Nil
  then show ?case by auto
next
  case (Cons seg segs)
  from Cons.prems obtain f where f: "findChild h c seg = Some f"
    and w: "walk h (Some f) (done @ [seg]) segs = Inr res"
    by (auto split: option.splits)
  from f links have kf: "key (h f) = seg" and pf: "parent (h f) = Some c"
    by (auto simp: findChild_def)
  from pf root have fr: "f \<noteq> r" by auto
  from Cons.IH [OF w] obtain n where n: "res = Some n"
    and eq: "\<forall>acc. absoluteLoop h (Some r) (Some n) acc = absoluteLoop h (Some r) (Some f) (segs @ acc)"
    by blast
  have "absoluteLoop h (Some r) (Some f) acc' = absoluteLoop h (Some r) (Some c) (seg # acc')" for acc'
    using fr kf pf by (simp add: absoluteLoop.simps [of h "Some r" "Some f"])
  with n eq show ?case by simp
qed

lemma uncached_absolute_path:
  assumes ok: "tree_ok s"
    and np: "np = CHR ''/'' # js_join ''/'' segs" "\<forall>g\<in>set segs. plain_segment g"
    and res: "resolvePathUncached s np = Inr (Some n)"
  shows "absolute_path s (Some n) = Some np"
proof -
  from ok obtain r where r: "root s = Some r" "parent (heap s r) = None"
    and links: "\<forall>m k c. map_of (childrenMap (heap s m)) k = Some c \<longrightarrow>
                  key (heap s c) = k \<and> parent (heap s c) = Some m"
    by (auto simp: tree_ok_def)
  have base: "absoluteLoop (heap s) (Some r) (Some r) acc = Some acc" for acc
    by (simp add: absoluteLoop.simps [of "heap s" "Some r" "Some r"])
  show ?thesis
  proof (cases "segs = []")
    case True
    with np res r base show ?thesis
      by (simp add: resolvePathUncached_def absolute_path_def)
  next
    case False
    from canonical_segments [OF np(2) False] np(1)
    have c: "filter_Boolean (js_split CHR ''/'' np) = segs" "np \<noteq> ''/''" by simp_all
    with res r have "walk (heap s) (Some r) [] segs = Inr (Some n)"
      by (simp add: resolvePathUncached_def)
    from walk_absoluteLoop [OF links r(2) this] base
    have "absoluteLoop (heap s) (Some r) (Some n) [] = Some segs" by simp
    with r np show ?thesis by (simp add: absolute_path_def)
  qed
qed

lemma resolve_path_uncached:
  assumes "resolve_path path s = Some (Inr (Some n), s1)" "path \<noteq> []" "path \<noteq> ''.''" "path \<noteq> ''/''"
    and "cache_ok s"
  shows "\<exists>np. normalizePath s path = Some np \<and> resolvePathUncached s np = Inr (Some n)"
proof -
  from assms obtain np where np: "normalizePath s path = Some np"
    by (auto simp: resolve_path_def split: option.splits)
  have del: "resolvePathUncached (s\<lparr>pathCache := c\<rparr>) np = resolvePathUncached s np" for c
    by (simp add: resolvePathUncached_def)
  have "resolvePathUncached s np = Inr (Some n)"
  proof (cases "map_of (pathCache s) np")
    case None
    with assms np show ?thesis
      by (auto simp: resolve_path_def resolve_miss_def Let_def split: sum.splits)
  next
    case (Some v)
    show ?thesis
    proof (cases v)
      case None
      with assms np Some show ?thesis
        by (auto simp: resolve_path_def resolve_miss_def del Let_def split: sum.splits)
    next
      case (Some c)
      with assms np \<open>map_of (pathCache s) np = Some v\<close> show ?thesis
        by (auto simp: resolve_path_def cache_ok_def)
    qed
  qed
  with np show ?thesis by simp
qed

text \<open>
  With a well-formed tree and a coherent cache, the current path after a successful \<open>cd\<close>
  is the normalized form of its argument.
\<close>

lemma cd_pwd_normalized:
  assumes cd: "cd path s = Some (Inr n, s')"
    and ok: "tree_ok s"
    and cache: "cache_ok s"
  shows "pwd s' = normalizePath s path"
proof -
  from cd obtain s1 where res: "resolve_path path s = Some (Inr (Some n), s1)"
    and s': "s' = s1\<lparr>cwd := Some n\<rparr>" and path: "path \<noteq> []"
    by (auto simp: cd_def split: if_splits option.splits sum.splits)
  have st: "same_tree s s1" using res by (rule resolve_path_same_tree)
  have same: "heap s' = heap s" "root s' = root s"
    using s' same_tree_heap [OF st] same_tree_root [OF st] by simp_all
  have pwd: "pwd s' = absolute_path s (Some n)"
    using s' same by (simp add: pwd_def absolute_path_def)
  from ok obtain r where r: "root s = Some r" "parent (heap s r) = None"
    by (auto simp: tree_ok_def)
  show ?thesis
  proof (cases "path = ''.''")
    case True
    with res have "cwd s = Some n" by (auto simp: resolve_path_def)
    with True pwd show ?thesis by (simp add: normalizePath_def)
  next
    case dot: False
    show ?thesis
    proof (cases "path = ''/''")
      case True
      with res r have "n = r" by (auto simp: resolve_path_def)
      with True pwd r show ?thesis
        by (simp add: normalizePath_def absolute_path_def
            absoluteLoop.simps [of "heap s" "Some r" "Some r"])
    next
      case False
      from resolve_path_uncached [OF res path dot False cache]
      obtain np where np: "normalizePath s path = Some np"
        and u: "resolvePathUncached s np = Inr (Some n)" by blast
      from normalizePath_canonical [OF np path dot]
      obtain segs where "np = CHR ''/'' # js_join ''/'' segs" "\<forall>g\<in>set segs. plain_segment g"
        by blast
      from uncached_absolute_path [OF ok this u] pwd np show ?thesis by simp
    qed
  qed
qed

text \<open>
  Claim C8. \<open>cd\<close> takes its target from the path cache, which moves leave stale. After
  \<open>/a/b\<close> was visited, moved to the root and replaced by another directory moved to
  \<open>/a/b\<close>, the path \<open>/a/b\<close> is a valid directory path with normalized form \<open>/a/b\<close>, but
  \<open>cd('/a/b')\<close> enters the node that now lies at \<open>/b\<close>: the current path is \<open>/b\<close>.
\<close>

theorem cd_pwd_through_stale_cache:
  "cd_after_moves = Some (Inr 2, ''/b'', Some ''/a/b'', Inr (Some 4))"
  by (simp add: cd_after_moves_def fs1_def eval_defs)

section \<open>Removing a directory\<close>

text \<open>\<open>rmdir\<close> refuses the root, a node that is not a directory and a directory with children.\<close>

lemma rmdir_refuses:
  assumes "path \<noteq> []"
    and "resolve_path (strip_trailing_slashes path) s = Some (Inr nd, s1)"
  shows "nd = root s1 \<Longrightarrow> rmdir path s = Some (Inl CannotModifyRoot, s1)"
    and "nd = Some n \<Longrightarrow> nd \<noteq> root s1 \<Longrightarrow> node_type (heap s1) n \<noteq> JStr ''dir'' \<Longrightarrow>
         rmdir path s = Some (Inl NotADirectory, s1)"
    and "nd = Some n \<Longrightarrow> nd \<noteq> root s1 \<Longrightarrow> node_type (heap s1) n = JStr ''dir'' \<Longrightarrow>
         children (heap s1 n) \<noteq> [] \<Longrightarrow> rmdir path s = Some (Inl NonEmptyDirectory, s1)"
  using assms by (simp_all add: rmdir_def)

text \<open>
  Claim C4. \<open>rmdir\<close> compares the current path with the path of the removed node after
  the node was detached, when that path is only a slash and the node's own key. With
  the current directory \<open>/b\<close>, removing the empty directory \<open>/a/b\<close> succeeds and resets the
  current directory, which was outside the removed subtree, to the root.
\<close>

theorem rmdir_resets_cwd_outside:
  "rmdir_elsewhere = Some (''/b'', Inr (), ''/'')"
  by (simp add: rmdir_elsewhere_def fs1_def eval_defs)

section \<open>Search patterns\<close>

text \<open>
  Claim C7. Of the characters special to regular expressions only \<open>.\<close> is escaped, and
  \<open>.*\<close> stops at line terminators. So the pattern \<open>a+b.txt\<close> does not match the key
  \<open>a+b.txt\<close> but matches \<open>aab.txt\<close> (the \<open>+\<close> repeats the \<open>a\<close>), and the pattern \<open>*\<close> does not
  match a key that contains a line feed.
\<close>

theorem search_unescaped_metacharacter:
  "search_matches ''a+b.txt'' ''a+b.txt'' = Inr False
   \<and> search_matches ''a+b.txt'' ''aab.txt'' = Inr True
   \<and> search_matches ''*'' [CHR ''a'', CHR 0x0A, CHR ''b''] = Inr False"
  by (simp add: regex_defs)

lemma rmatch_star_any:
  "\<forall>c\<in>set k. \<not> line_terminator c \<Longrightarrow> rmatch [(AnyChar, Star)] k"
  by (induction k) auto

lemma search_star:
  assumes "ascii k" "\<forall>c\<in>set k. \<not> line_terminator c"
  shows "search_matches ''*'' k = Inr True"
  using assms rmatch_star_any [of k]
  by (simp add: search_matches_def regex_source_def replace_all_def new_RegExp_def
      take_quant_def skip_lazy_def ascii_def)

lemma search_literal:
  "CHR ''*'' \<notin> set pattern \<Longrightarrow> CHR ''.'' \<notin> set pattern \<Longrightarrow>
   search_matches pattern k = Inr (k = pattern)"
  by (simp add: search_matches_def)

section \<open>Deserialization\<close>

lemma TreeNode_insert_entry: "TreeNode_insert p c h = Inr h' \<Longrightarrow> entry_of h' a = entry_of h a"
  by (auto simp: TreeNode_insert_def entry_of_def Let_def split: if_splits)








section \<open>Writing in append mode to a missing file\<close>



end
